theory Spec2Isabelle
  imports Main "HOL-Library.AList"
begin

section \<open>Token store (token.store.ts)\<close>

text \<open>
  The store is a JavaScript \<^verbatim>\<open>Map<string, StoredToken>\<close>. A JavaScript Map keeps its
  entries in insertion order and holds at most one entry per key, so it is modelled as an
  association list whose keys are distinct (\<open>wf_store\<close>). \<^verbatim>\<open>Map.get\<close> is \<open>map_of\<close>,
  \<^verbatim>\<open>Map.set\<close> replaces the value of a present key in place and appends an absent key at
  the end (\<open>AList.update\<close>), \<^verbatim>\<open>Map.delete\<close> removes the entry (\<open>AList.delete\<close>).

  Timestamps are the integer milliseconds of \<^verbatim>\<open>Date.now()\<close>; the reading of the clock is
  an argument \<open>now\<close> of every operation that reads it. The time-to-live is modelled for
  whole numbers of seconds: then \<^verbatim>\<open>ttlSeconds * 1000\<close> and \<^verbatim>\<open>now + ttlSeconds * 1000\<close>
  are integers, which the double arithmetic of the source computes exactly below \<open>2^53\<close>.
  A fractional time-to-live, whose sum with the clock double arithmetic rounds, is outside the
  model, and so are \<^verbatim>\<open>NaN\<close> and \<^verbatim>\<open>Infinity\<close>.
\<close>

record StoredToken =
  username :: string
  issuedAt :: int
  expiresAt :: int

type_synonym TokenStore = "(string \<times> StoredToken) list"

definition wf_store :: "TokenStore \<Rightarrow> bool" where
  "wf_store tokens = distinct (map fst tokens)"

definition new_TokenStore :: TokenStore where
  "new_TokenStore = []"

definition saveToken :: "int \<Rightarrow> string \<Rightarrow> string \<Rightarrow> int \<Rightarrow> TokenStore \<Rightarrow> TokenStore" where
  "saveToken now token user ttlSeconds tokens =
     AList.update token
       \<lparr>username = user, issuedAt = now, expiresAt = now + ttlSeconds * 1000\<rparr> tokens"

text \<open>The default of the parameter \<^verbatim>\<open>ttlSeconds\<close>: seven days.\<close>

definition saveToken_default :: "int \<Rightarrow> string \<Rightarrow> string \<Rightarrow> TokenStore \<Rightarrow> TokenStore" where
  "saveToken_default now token user tokens = saveToken now token user (7 * 24 * 60 * 60) tokens"

text \<open>
  \<^verbatim>\<open>verifyToken\<close> returns \<^verbatim>\<open>string | null\<close> and may delete the record it looked up:
  the model returns the result together with the store after the call.
\<close>

definition verifyToken :: "int \<Rightarrow> string \<Rightarrow> TokenStore \<Rightarrow> string option \<times> TokenStore" where
  "verifyToken now token tokens =
     (case map_of tokens token of
        None \<Rightarrow> (None, tokens)
      | Some stored \<Rightarrow>
          if now > expiresAt stored then (None, AList.delete token tokens)
          else (Some (username stored), tokens))"

definition revokeToken :: "string \<Rightarrow> TokenStore \<Rightarrow> TokenStore" where
  "revokeToken token tokens = AList.delete token tokens"

text \<open>
  The two loops run over \<^verbatim>\<open>this.tokens.entries()\<close> and delete from the map they
  iterate. A Map iterator visits the live entries in insertion order, and deleting the entry
  just visited does not disturb the entries still to come; so the loop visits the entries
  the map had at its start, first to last, while the map shrinks. The first list argument
  is what is left to visit, the second the map.
\<close>

fun revokeAll_loop :: "string \<Rightarrow> (string \<times> StoredToken) list \<Rightarrow> TokenStore \<Rightarrow> TokenStore" where
  "revokeAll_loop user [] tokens = tokens"
| "revokeAll_loop user ((token, stored) # entries) tokens =
     revokeAll_loop user entries
       (if username stored = user then AList.delete token tokens else tokens)"

definition revokeAllUserTokens :: "string \<Rightarrow> TokenStore \<Rightarrow> TokenStore" where
  "revokeAllUserTokens user tokens = revokeAll_loop user tokens tokens"

fun cleanup_loop :: "int \<Rightarrow> (string \<times> StoredToken) list \<Rightarrow> TokenStore \<Rightarrow> nat \<Rightarrow> nat \<times> TokenStore" where
  "cleanup_loop now [] tokens cleaned = (cleaned, tokens)"
| "cleanup_loop now ((token, stored) # entries) tokens cleaned =
     (if now > expiresAt stored
      then cleanup_loop now entries (AList.delete token tokens) (cleaned + 1)
      else cleanup_loop now entries tokens cleaned)"

definition cleanupExpired :: "int \<Rightarrow> TokenStore \<Rightarrow> nat \<times> TokenStore" where
  "cleanupExpired now tokens = cleanup_loop now tokens tokens 0"

section \<open>Authentication service (auth.service.ts)\<close>

text \<open>
  The service signs and verifies tokens through \<^verbatim>\<open>app.jwt\<close> of the external library
  @fastify/jwt, which is not among the sources. The serialisation of a set of claims into a
  signed token, and the check of a token's signature with the decoding of its claims, are
  parameters of the model, the two fields of \<open>App\<close>.
\<close>

record claims =
  sub :: string
  iat :: int
  exp :: int

record App =
  jwt_encode :: "claims \<Rightarrow> string"
  jwt_decode :: "string \<Rightarrow> claims option"

text \<open>
  Modelled from the spec: \<^verbatim>\<open>app.jwt.sign(payload, {expiresIn})\<close> is a function of the
  external library, missing from the sources. The specification gives the claims of a token
  as \<^verbatim>\<open>{sub: string, iat: unix-seconds, exp: unix-seconds}\<close> (section 6), a token as the
  signed encoding of the subject and the issue time with a fixed validity window (section
  4.2), and the signature as HMAC-SHA256 (section 1), a function of what it signs. So the
  token is \<open>jwt_encode\<close> of the claims, \<^verbatim>\<open>iat\<close> the clock in whole seconds and
  \<^verbatim>\<open>exp\<close> that second plus the validity window in seconds.
\<close>

definition jwt_sign :: "App \<Rightarrow> int \<Rightarrow> string \<Rightarrow> int \<Rightarrow> string" where
  "jwt_sign app now subject expiresIn =
     jwt_encode app \<lparr>sub = subject, iat = now div 1000, exp = now div 1000 + expiresIn\<rparr>"

text \<open>
  Modelled from the spec: \<^verbatim>\<open>app.jwt.verify(token)\<close> is a function of the external
  library, missing from the sources. The specification has it re-verify the signature and
  extract the claims (section 4.3) and reject a token that is expired or fails the
  signature check (section 7), \<^verbatim>\<open>exp\<close> being in unix seconds (section 6). So it is
  \<open>jwt_decode\<close>, followed by the rejection of a token when the clock, in milliseconds, is
  past its \<^verbatim>\<open>exp\<close> second; at that second itself the token is still accepted.
\<close>

definition jwt_verify :: "App \<Rightarrow> int \<Rightarrow> string \<Rightarrow> claims option" where
  "jwt_verify app now token =
     (case jwt_decode app token of
        None \<Rightarrow> None
      | Some decoded \<Rightarrow> if now > exp decoded * 1000 then None else Some decoded)"

record LoginRequest =
  req_username :: string
  req_password :: string

record TokenResponse =
  accessToken :: string
  refreshToken :: string
  tokenType :: string

text \<open>
  A thrown \<^verbatim>\<open>new Error(message)\<close> is \<open>Error message\<close>; what \<^verbatim>\<open>app.jwt.verify\<close>
  throws is \<open>JwtVerifyError\<close>. A call returns its outcome and the store after it.
\<close>

datatype error = Error string | JwtVerifyError

text \<open>
  A call of the service reads the clock once in each \<^verbatim>\<open>jwt.sign\<close>, \<^verbatim>\<open>jwt.verify\<close>,
  \<^verbatim>\<open>saveToken\<close> and \<^verbatim>\<open>verifyToken\<close> it makes, and the clock may advance between two
  readings. The readings of a call are its argument, one field for each, in the order the
  call makes them: three in \<^verbatim>\<open>login\<close>, three in \<^verbatim>\<open>refresh\<close>.
\<close>

record LoginClock =
  at_sign_access :: int
  at_sign_refresh :: int
  at_saveToken :: int

record RefreshClock =
  at_verifyToken :: int
  at_jwt_verify :: int
  at_sign :: int

definition AuthService_login ::
  "App \<Rightarrow> LoginClock \<Rightarrow> LoginRequest \<Rightarrow> TokenStore \<Rightarrow>
   (error + TokenResponse) \<times> TokenStore" where
  "AuthService_login app now payload tokens =
     (if req_username payload \<noteq> ''admin'' \<or> req_password payload \<noteq> ''Admin@123''
      then (Inl (Error ''Invalid credentials''), tokens)
      else
        let access_token = jwt_sign app (at_sign_access now) (req_username payload) (15 * 60);
            refresh_token =
              jwt_sign app (at_sign_refresh now) (req_username payload) (7 * 24 * 60 * 60)
        in (Inr \<lparr>accessToken = access_token, refreshToken = refresh_token,
                  tokenType = ''Bearer''\<rparr>,
            saveToken (at_saveToken now) refresh_token (req_username payload)
              (7 * 24 * 60 * 60) tokens))"

text \<open>
  \<^verbatim>\<open>if (!username)\<close> holds for \<^verbatim>\<open>null\<close> and for the empty string.
\<close>

definition AuthService_refresh ::
  "App \<Rightarrow> RefreshClock \<Rightarrow> string \<Rightarrow> TokenStore \<Rightarrow>
   (error + TokenResponse) \<times> TokenStore" where
  "AuthService_refresh app now refresh_token tokens =
     (case verifyToken (at_verifyToken now) refresh_token tokens of
        (None, tokens') \<Rightarrow> (Inl (Error ''Refresh token is invalid or revoked''), tokens')
      | (Some user, tokens') \<Rightarrow>
          if user = [] then (Inl (Error ''Refresh token is invalid or revoked''), tokens')
          else
            (case jwt_verify app (at_jwt_verify now) refresh_token of
               None \<Rightarrow> (Inl JwtVerifyError, tokens')
             | Some decoded \<Rightarrow>
                 (Inr \<lparr>accessToken = jwt_sign app (at_sign now) (sub decoded) (15 * 60),
                        refreshToken = refresh_token, tokenType = ''Bearer''\<rparr>,
                  tokens')))"

definition AuthService_logout :: "string \<Rightarrow> TokenStore \<Rightarrow> (error + unit) \<times> TokenStore" where
  "AuthService_logout refresh_token tokens = (Inr (), revokeToken refresh_token tokens)"

section \<open>Authentication controller (auth.controller.ts)\<close>

text \<open>
  A reply is its status code (200 unless \<^verbatim>\<open>reply.code\<close> sets it) and the body sent.
  The body of the logout request is the string in its field \<^verbatim>\<open>refreshToken\<close>;
  \<^verbatim>\<open>!refreshToken\<close> holds for the empty string.
\<close>

datatype body = Tokens TokenResponse | Message string

type_synonym reply = "nat \<times> body"

definition AuthController_login ::
  "App \<Rightarrow> LoginClock \<Rightarrow> LoginRequest \<Rightarrow> TokenStore \<Rightarrow> reply \<times> TokenStore" where
  "AuthController_login app now request_body tokens =
     (case AuthService_login app now request_body tokens of
        (Inr tokens_response, tokens') \<Rightarrow> ((200, Tokens tokens_response), tokens')
      | (Inl err, tokens') \<Rightarrow> ((401, Message ''Invalid credentials''), tokens'))"

definition AuthController_logout :: "string \<Rightarrow> TokenStore \<Rightarrow> reply \<times> TokenStore" where
  "AuthController_logout refresh_token tokens =
     (if refresh_token = [] then ((400, Message ''Refresh token is required''), tokens)
      else
        (case AuthService_logout refresh_token tokens of
           (Inr u, tokens') \<Rightarrow> ((200, Message ''Logged out successfully''), tokens')
         | (Inl err, tokens') \<Rightarrow> ((400, Message ''Logout failed''), tokens')))"

section \<open>Sequences of store operations\<close>






section \<open>A reference JWT library\<close>

text \<open>
  The theorems about the service hold for every \<open>App\<close>. To run the service on concrete
  inputs, \<open>demo_app\<close> is one such library: a token is its claims written out in
  decimal, \<^verbatim>\<open>iat.exp.sub\<close>, and decoding accepts the tokens that are the encoding of
  some claims.
\<close>

definition digit_char :: "nat \<Rightarrow> char" where
  "digit_char d = ''0123456789'' ! d"

definition digit_val :: "char \<Rightarrow> nat" where
  "digit_val ch = of_char ch - 48"

fun render_nat :: "nat \<Rightarrow> string" where
  "render_nat n =
     (if n < 10 then [digit_char n] else render_nat (n div 10) @ [digit_char (n mod 10)])"

declare render_nat.simps [simp del]

definition parse_nat :: "string \<Rightarrow> nat" where
  "parse_nat s = foldl (\<lambda>a ch. 10 * a + digit_val ch) 0 s"

definition render_int :: "int \<Rightarrow> string" where
  "render_int i = (if i < 0 then CHR ''-'' # render_nat (nat (- i)) else render_nat (nat i))"

definition parse_int :: "string \<Rightarrow> int" where
  "parse_int s =
     (if s \<noteq> [] \<and> hd s = CHR ''-'' then - int (parse_nat (tl s)) else int (parse_nat s))"

definition demo_encode :: "claims \<Rightarrow> string" where
  "demo_encode c = render_int (iat c) @ ''.'' @ render_int (exp c) @ ''.'' @ sub c"

definition demo_parse :: "string \<Rightarrow> claims" where
  "demo_parse s =
     (let a = takeWhile (\<lambda>ch. ch \<noteq> CHR ''.'') s;
          r = drop (length a + 1) s;
          b = takeWhile (\<lambda>ch. ch \<noteq> CHR ''.'') r
      in \<lparr>sub = drop (length b + 1) r, iat = parse_int a, exp = parse_int b\<rparr>)"

definition demo_decode :: "string \<Rightarrow> claims option" where
  "demo_decode s = (let c = demo_parse s in if demo_encode c = s then Some c else None)"

definition demo_app :: App where
  "demo_app = \<lparr>jwt_encode = demo_encode, jwt_decode = demo_decode\<rparr>"

definition valid_login :: LoginRequest where
  "valid_login = \<lparr>req_username = ''admin'', req_password = ''Admin@123''\<rparr>"

section \<open>Scenarios\<close>

text \<open>A call during which the clock does not advance.\<close>

definition login_at :: "int \<Rightarrow> LoginClock" where
  "login_at t = \<lparr>at_sign_access = t, at_sign_refresh = t, at_saveToken = t\<rparr>"

definition refresh_at :: "int \<Rightarrow> RefreshClock" where
  "refresh_at t = \<lparr>at_verifyToken = t, at_jwt_verify = t, at_sign = t\<rparr>"

text \<open>
  A login with the known credentials, followed by a refresh with the refresh token the
  login returned: the two responses, when both calls succeed.
\<close>

definition login_refresh ::
  "App \<Rightarrow> LoginClock \<Rightarrow> RefreshClock \<Rightarrow> TokenStore \<Rightarrow>
   (TokenResponse \<times> TokenResponse) option" where
  "login_refresh app now0 now1 tokens =
     (case AuthService_login app now0 valid_login tokens of
        (Inl err, tokens1) \<Rightarrow> None
      | (Inr r0, tokens1) \<Rightarrow>
          (case AuthService_refresh app now1 (refreshToken r0) tokens1 of
             (Inl err, tokens2) \<Rightarrow> None
           | (Inr r1, tokens2) \<Rightarrow> Some (r0, r1)))"

text \<open>
  The round trip as the specification words it: the refresh succeeds, its access token
  differs from the one of the login, and its refresh token is the one of the login.
\<close>

definition roundtrip_as_specified ::
  "App \<Rightarrow> LoginClock \<Rightarrow> RefreshClock \<Rightarrow> TokenStore \<Rightarrow> bool" where
  "roundtrip_as_specified app now0 now1 tokens =
     (case login_refresh app now0 now1 tokens of
        None \<Rightarrow> False
      | Some (r0, r1) \<Rightarrow> accessToken r1 \<noteq> accessToken r0 \<and> refreshToken r1 = refreshToken r0)"

text \<open>
  A login during which the clock passes from one second into the next between the two
  signatures.
\<close>

definition ticking_login :: LoginClock where
  "ticking_login = \<lparr>at_sign_access = 999, at_sign_refresh = 1000, at_saveToken = 1000\<rparr>"


text \<open>A store of three records, two of them of the same user.\<close>

definition example_store :: TokenStore where
  "example_store =
     [(''a'', \<lparr>username = ''admin'', issuedAt = 0, expiresAt = 10\<rparr>),
      (''b'', \<lparr>username = ''bob'', issuedAt = 0, expiresAt = 100\<rparr>),
      (''c'', \<lparr>username = ''admin'', issuedAt = 5, expiresAt = 20\<rparr>)]"

section \<open>Properties of the token store\<close>

subsection \<open>The representation invariant\<close>

lemma wf_new_TokenStore: "wf_store new_TokenStore"
  by (simp add: wf_store_def new_TokenStore_def)

lemma wf_saveToken: "wf_store tokens \<Longrightarrow> wf_store (saveToken now token user ttl tokens)"
  by (simp add: wf_store_def saveToken_def distinct_update)

lemma wf_delete: "wf_store tokens \<Longrightarrow> wf_store (AList.delete token tokens)"
  by (simp add: wf_store_def distinct_delete)

lemma wf_verifyToken: "wf_store tokens \<Longrightarrow> wf_store (snd (verifyToken now token tokens))"
  by (simp add: verifyToken_def wf_delete split: option.splits)

lemma wf_revokeToken: "wf_store tokens \<Longrightarrow> wf_store (revokeToken token tokens)"
  by (simp add: revokeToken_def wf_delete)

lemma wf_revokeAll_loop: "wf_store tokens \<Longrightarrow> wf_store (revokeAll_loop user entries tokens)"
  by (induction user entries tokens rule: revokeAll_loop.induct) (simp_all add: wf_delete)

lemma wf_revokeAllUserTokens: "wf_store tokens \<Longrightarrow> wf_store (revokeAllUserTokens user tokens)"
  by (simp add: revokeAllUserTokens_def wf_revokeAll_loop)

lemma wf_cleanup_loop: "wf_store tokens \<Longrightarrow> wf_store (snd (cleanup_loop now entries tokens n))"
  by (induction now entries tokens n rule: cleanup_loop.induct) (simp_all add: wf_delete)

lemma wf_cleanupExpired: "wf_store tokens \<Longrightarrow> wf_store (snd (cleanupExpired now tokens))"
  by (simp add: cleanupExpired_def wf_cleanup_loop)

subsection \<open>The loops in closed form\<close>

lemma revokeAll_loop_eq:
  "revokeAll_loop user entries tokens =
     filter (\<lambda>e. fst e \<notin> fst ` {d \<in> set entries. username (snd d) = user}) tokens"
proof (induction user entries tokens rule: revokeAll_loop.induct)
  case (1 user tokens)
  show ?case by simp
next
  case (2 user token stored entries tokens)
  show ?case
  proof (cases "username stored = user")
    case True
    have "{d \<in> set ((token, stored) # entries). username (snd d) = user} =
          insert (token, stored) {d \<in> set entries. username (snd d) = user}"
      using True by auto
    with 2 True show ?thesis
      by (auto simp: AList.delete_eq intro!: filter_cong)
  next
    case False
    have "{d \<in> set ((token, stored) # entries). username (snd d) = user} =
          {d \<in> set entries. username (snd d) = user}"
      using False by auto
    with 2 False show ?thesis by simp
  qed
qed

lemma cleanup_loop_eq:
  "cleanup_loop now entries tokens cleaned =
     (cleaned + length (filter (\<lambda>e. now > expiresAt (snd e)) entries),
      filter (\<lambda>e. fst e \<notin> fst ` {d \<in> set entries. now > expiresAt (snd d)}) tokens)"
proof (induction now entries tokens cleaned rule: cleanup_loop.induct)
  case (1 now tokens cleaned)
  show ?case by simp
next
  case (2 now token stored entries tokens cleaned)
  show ?case
  proof (cases "now > expiresAt stored")
    case True
    have "{d \<in> set ((token, stored) # entries). now > expiresAt (snd d)} =
          insert (token, stored) {d \<in> set entries. now > expiresAt (snd d)}"
      using True by auto
    with 2 True show ?thesis
      by (auto simp: AList.delete_eq intro!: filter_cong)
  next
    case False
    have "{d \<in> set ((token, stored) # entries). now > expiresAt (snd d)} =
          {d \<in> set entries. now > expiresAt (snd d)}"
      using False by auto
    with 2 False show ?thesis by simp
  qed
qed

lemma distinct_key_filter:
  assumes "distinct (map fst xs)"
  shows "filter (\<lambda>e. fst e \<notin> fst ` {d \<in> set xs. P d}) xs = filter (\<lambda>e. \<not> P e) xs"
proof (rule filter_cong [OF refl])
  fix e assume e: "e \<in> set xs"
  have "d = e" if "d \<in> set xs" "fst d = fst e" for d
    using assms that e by (metis eq_key_imp_eq_value prod.collapse)
  then show "(fst e \<notin> fst ` {d \<in> set xs. P d}) = (\<not> P e)"
    using e by auto
qed

lemma revokeAllUserTokens_filter:
  "wf_store tokens \<Longrightarrow>
   revokeAllUserTokens user tokens = filter (\<lambda>e. username (snd e) \<noteq> user) tokens"
  unfolding revokeAllUserTokens_def revokeAll_loop_eq wf_store_def
  by (rule distinct_key_filter)

lemma cleanupExpired_filter:
  "wf_store tokens \<Longrightarrow>
   cleanupExpired now tokens =
     (length (filter (\<lambda>e. now > expiresAt (snd e)) tokens),
      filter (\<lambda>e. \<not> now > expiresAt (snd e)) tokens)"
  unfolding cleanupExpired_def cleanup_loop_eq wf_store_def
  by (simp add: distinct_key_filter)

lemma map_of_filter_absent: "map_of xs k = None \<Longrightarrow> map_of (filter P xs) k = None"
  by (induction xs) (auto split: if_splits)

lemma map_of_filter_present:
  assumes "distinct (map fst xs)" and "map_of xs k = Some v"
  shows "map_of (filter P xs) k = (if P (k, v) then Some v else None)"
  using assms
proof (induction xs)
  case Nil
  then show ?case by simp
next
  case (Cons x xs)
  show ?case
  proof (cases "fst x = k")
    case True
    with Cons.prems have "snd x = v" and "map_of xs k = None"
      by (auto simp: map_of_eq_None_iff)
    with True show ?thesis
      by (cases x) (simp add: map_of_filter_absent)
  next
    case False
    with Cons show ?thesis by simp
  qed
qed

section \<open>The reference library decodes what it encodes\<close>

lemma of_char_digit_char:
  assumes "d < 10"
  shows "(of_char (digit_char d) :: nat) = 48 + d"
proof -
  from assms have "d \<in> {0, 1, 2, 3, 4, 5, 6, 7, 8, 9}" by auto
  then show ?thesis by (auto simp: digit_char_def)
qed

lemma digit_val_char: "d < 10 \<Longrightarrow> digit_val (digit_char d) = d"
  by (simp add: digit_val_def of_char_digit_char)

lemma parse_nat_snoc: "parse_nat (s @ [ch]) = 10 * parse_nat s + digit_val ch"
  by (simp add: parse_nat_def)

lemma parse_render_nat: "parse_nat (render_nat n) = n"
proof (induction n rule: render_nat.induct)
  case (1 n)
  show ?case
  proof (cases "n < 10")
    case True
    then show ?thesis by (simp add: render_nat.simps [of n] parse_nat_def digit_val_char)
  next
    case False
    with 1 have "parse_nat (render_nat (n div 10)) = n div 10" by simp
    with False show ?thesis
      by (simp add: render_nat.simps [of n] parse_nat_snoc digit_val_char)
  qed
qed



lemma render_nat_chars: "ch \<in> set (render_nat n) \<Longrightarrow> (48 :: nat) \<le> of_char ch"
proof (induction n rule: render_nat.induct)
  case (1 n)
  show ?case
  proof (cases "n < 10")
    case True
    with 1(2) show ?thesis by (simp add: render_nat.simps [of n] of_char_digit_char)
  next
    case False
    with 1 show ?thesis
      by (auto simp: render_nat.simps [of n] of_char_digit_char)
  qed
qed

lemma render_nat_not_Nil: "render_nat n \<noteq> []"
  by (simp add: render_nat.simps [of n])

lemma render_nat_no_dot: "CHR ''.'' \<notin> set (render_nat n)"
  using render_nat_chars [of "CHR ''.''" n] by auto

lemma render_nat_no_minus: "CHR ''-'' \<notin> set (render_nat n)"
  using render_nat_chars [of "CHR ''-''" n] by auto

lemma render_int_no_dot: "CHR ''.'' \<notin> set (render_int i)"
  by (simp add: render_int_def render_nat_no_dot)

lemma parse_render_int: "parse_int (render_int i) = i"
proof (cases "i < 0")
  case True
  then show ?thesis by (simp add: render_int_def parse_int_def parse_render_nat)
next
  case False
  have "hd (render_nat (nat i)) \<in> set (render_nat (nat i))"
    by (simp add: render_nat_not_Nil)
  then have "hd (render_nat (nat i)) \<noteq> CHR ''-''"
    using render_nat_no_minus [of "nat i"] by metis
  with False show ?thesis
    by (simp add: render_int_def parse_int_def parse_render_nat)
qed

lemma takeWhile_render_int:
  "takeWhile (\<lambda>ch. ch \<noteq> CHR ''.'') (render_int i @ CHR ''.'' # rest) = render_int i"
proof -
  have "takeWhile (\<lambda>ch. ch \<noteq> CHR ''.'') (render_int i @ CHR ''.'' # rest) =
        takeWhile (\<lambda>ch. ch \<noteq> CHR ''.'') (render_int i)"
    by (rule takeWhile_tail) simp
  also have "\<dots> = render_int i"
    using render_int_no_dot [of i] by auto
  finally show ?thesis .
qed

lemma demo_parse_encode: "demo_parse (demo_encode c) = c"
  by (simp add: demo_parse_def demo_encode_def takeWhile_render_int parse_render_int Let_def)

lemma inj_demo_encode: "inj demo_encode"
  by (rule inj_on_inverseI [of _ demo_parse]) (rule demo_parse_encode)


text \<open>Unfolding these evaluates the reference library on concrete tokens.\<close>

lemma demo_decode_encode: "demo_decode (demo_encode c) = Some c"
  by (simp add: demo_decode_def demo_parse_encode)

lemmas demo_eval = demo_app_def demo_encode_def demo_decode_def jwt_verify_def demo_parse_def
  render_int_def login_at_def refresh_at_def
  parse_int_def parse_nat_def render_nat.simps digit_char_def digit_val_def jwt_sign_def Let_def

section \<open>Helper facts about association lists\<close>

lemma map_of_delete_same: "map_of (AList.delete k xs) k = None"
  by (simp add: delete_conv')

lemma count_after_delete:
  "distinct (map fst xs) \<Longrightarrow> map_of xs k = Some v \<Longrightarrow> P (k, v) \<Longrightarrow>
   length (filter P (AList.delete k xs)) + 1 = length (filter P xs)"
proof (induction xs)
  case Nil
  then show ?case by simp
next
  case (Cons x xs)
  obtain a b where x: "x = (a, b)" by (cases x)
  show ?case
  proof (cases "a = k")
    case True
    with Cons.prems x have "k \<notin> fst ` set xs" "b = v" by auto
    then show ?thesis using x True Cons.prems(3) by simp
  next
    case False
    with Cons x show ?thesis by simp
  qed
qed

lemma count_delete_other:
  "distinct (map fst xs) \<Longrightarrow> map_of xs k = Some v \<Longrightarrow> \<not> P (k, v) \<Longrightarrow>
   length (filter P (AList.delete k xs)) = length (filter P xs)"
proof (induction xs)
  case Nil
  then show ?case by simp
next
  case (Cons x xs)
  obtain a b where x: "x = (a, b)" by (cases x)
  show ?case
  proof (cases "a = k")
    case True
    with Cons.prems x have "k \<notin> fst ` set xs" "b = v" by auto
    then show ?thesis using x True Cons.prems(3) by simp
  next
    case False
    with Cons x show ?thesis by simp
  qed
qed



text \<open>Unfolding these evaluates the store on concrete inputs.\<close>

lemmas store_eval = example_store_def wf_store_def verifyToken_def saveToken_def revokeToken_def
  revokeAllUserTokens_def cleanupExpired_def new_TokenStore_def

section \<open>The invariant of the validity window\<close>






section \<open>The service with the reference library\<close>

lemma jwt_encode_inj:
  assumes "\<And>c. jwt_decode app (jwt_encode app c) = Some c"
  shows "(jwt_encode app c = jwt_encode app d) = (c = d)"
proof
  assume "jwt_encode app c = jwt_encode app d"
  then have "jwt_decode app (jwt_encode app c) = jwt_decode app (jwt_encode app d)"
    by simp
  with assms show "c = d" by simp
qed simp

lemma demo_app_decodes: "jwt_decode demo_app (jwt_encode demo_app c) = Some c"
  by (simp add: demo_app_def demo_decode_encode)

text \<open>
  A refresh half a second after a login, in the same second: the two responses are equal.
\<close>

lemma login_refresh_same_second:
  "login_refresh demo_app (login_at 1000) (refresh_at 1500) new_TokenStore =
     Some (\<lparr>accessToken = ''1.901.admin'', refreshToken = ''1.604801.admin'', tokenType = ''Bearer''\<rparr>,
           \<lparr>accessToken = ''1.901.admin'', refreshToken = ''1.604801.admin'', tokenType = ''Bearer''\<rparr>)"
  by (simp add: login_refresh_def AuthService_login_def AuthService_refresh_def valid_login_def
        new_TokenStore_def saveToken_def verifyToken_def demo_eval)

text \<open>
  A refresh 200 ms after the second of the \<^verbatim>\<open>exp\<close> claim of the refresh token, and
  300 ms before the stored record expires: the store accepts the token and the library
  rejects it.
\<close>

lemma login_refresh_jwt_expired:
  "AuthService_refresh demo_app (refresh_at 604801200) ''1.604801.admin''
     (snd (AuthService_login demo_app (login_at 1500) valid_login new_TokenStore)) =
     (Inl JwtVerifyError,
      [(''1.604801.admin'', \<lparr>username = ''admin'', issuedAt = 1500, expiresAt = 604801500\<rparr>)])"
  by (simp add: AuthService_login_def AuthService_refresh_def valid_login_def
        new_TokenStore_def saveToken_def verifyToken_def demo_eval)

lemma login_refresh_jwt_expired_None:
  "login_refresh demo_app (login_at 1500) (refresh_at 604801200) new_TokenStore = None"
  by (simp add: login_refresh_def AuthService_login_def AuthService_refresh_def valid_login_def
        new_TokenStore_def saveToken_def verifyToken_def demo_eval)

section \<open>The claims\<close>

subsection \<open>C1\<close>

text \<open>
  C1: For every well-formed store, token and clock reading, \<open>verifyToken\<close> returns
  not-found and leaves the store as it is when the token has no record; when the record is
  present and \<open>now > expiresAt\<close> it returns not-found and deletes exactly that record, so
  that a later \<open>verifyToken\<close> of the token at any time is not-found again, and
  \<open>cleanupExpired\<close> counts one record fewer than it would have counted on the store
  before; otherwise it returns the user of the record and leaves the store unchanged.
\<close>

theorem verifyToken_contract:
  assumes "wf_store tokens"
  shows "(map_of tokens token = None \<longrightarrow> verifyToken now token tokens = (None, tokens)) \<and>
    (\<forall>stored. map_of tokens token = Some stored \<and> now > expiresAt stored \<longrightarrow>
       fst (verifyToken now token tokens) = None \<and>
       snd (verifyToken now token tokens) = filter (\<lambda>e. fst e \<noteq> token) tokens \<and>
       map_of (snd (verifyToken now token tokens)) token = None \<and>
       (\<forall>now'. verifyToken now' token (snd (verifyToken now token tokens)) =
                (None, snd (verifyToken now token tokens))) \<and>
       (\<forall>now'. now' > expiresAt stored \<longrightarrow>
          fst (cleanupExpired now' (snd (verifyToken now token tokens))) + 1 =
          fst (cleanupExpired now' tokens))) \<and>
    (\<forall>stored. map_of tokens token = Some stored \<and> \<not> now > expiresAt stored \<longrightarrow>
       verifyToken now token tokens = (Some (username stored), tokens))"
proof (intro conjI allI impI)
  assume "map_of tokens token = None"
  then show "verifyToken now token tokens = (None, tokens)"
    by (simp add: verifyToken_def)
next
  fix stored assume live: "map_of tokens token = Some stored \<and> \<not> now > expiresAt stored"
  then show "verifyToken now token tokens = (Some (username stored), tokens)"
    by (simp add: verifyToken_def)
next
  fix stored assume expired: "map_of tokens token = Some stored \<and> now > expiresAt stored"
  then have v: "verifyToken now token tokens = (None, AList.delete token tokens)"
    by (simp add: verifyToken_def)
  show "fst (verifyToken now token tokens) = None"
    by (simp add: v)
  show "snd (verifyToken now token tokens) = filter (\<lambda>e. fst e \<noteq> token) tokens"
    by (auto simp: v AList.delete_eq intro!: filter_cong)
  show "map_of (snd (verifyToken now token tokens)) token = None"
    by (simp add: v map_of_delete_same)
  { fix now'
    show "verifyToken now' token (snd (verifyToken now token tokens)) =
          (None, snd (verifyToken now token tokens))"
      unfolding v snd_conv by (simp add: verifyToken_def map_of_delete_same) }
  { fix now' assume later: "now' > expiresAt stored"
    have wf': "wf_store (AList.delete token tokens)"
      using assms by (rule wf_delete)
    have "length (filter (\<lambda>e. now' > expiresAt (snd e)) (AList.delete token tokens)) + 1 =
          length (filter (\<lambda>e. now' > expiresAt (snd e)) tokens)"
      using assms expired later
      by (intro count_after_delete [where v = stored]) (simp_all add: wf_store_def)
    then show "fst (cleanupExpired now' (snd (verifyToken now token tokens))) + 1 =
          fst (cleanupExpired now' tokens)"
      by (simp add: v cleanupExpired_filter [OF wf'] cleanupExpired_filter [OF assms]) }
qed

text \<open>C1 at concrete inputs.\<close>

theorem verifyToken_contract_witness:
  "wf_store example_store \<and>
   map_of example_store ''zz'' = None \<and>
   verifyToken 15 ''zz'' example_store = (None, example_store) \<and>
   map_of example_store ''a'' = Some \<lparr>username = ''admin'', issuedAt = 0, expiresAt = 10\<rparr> \<and>
   fst (verifyToken 15 ''a'' example_store) = None \<and>
   snd (verifyToken 15 ''a'' example_store) = filter (\<lambda>e. fst e \<noteq> ''a'') example_store \<and>
   map_of (snd (verifyToken 15 ''a'' example_store)) ''a'' = None \<and>
   verifyToken 16 ''a'' (snd (verifyToken 15 ''a'' example_store)) =
     (None, snd (verifyToken 15 ''a'' example_store)) \<and>
   fst (cleanupExpired 16 (snd (verifyToken 15 ''a'' example_store))) + 1 =
     fst (cleanupExpired 16 example_store) \<and>
   map_of example_store ''c'' = Some \<lparr>username = ''admin'', issuedAt = 5, expiresAt = 20\<rparr> \<and>
   verifyToken 15 ''c'' example_store = (Some ''admin'', example_store)"
proof -
  have wf: "wf_store example_store"
    by (simp add: store_eval)
  have absent: "map_of example_store ''zz'' = None"
    and a: "map_of example_store ''a'' = Some \<lparr>username = ''admin'', issuedAt = 0, expiresAt = 10\<rparr>"
    and c: "map_of example_store ''c'' = Some \<lparr>username = ''admin'', issuedAt = 5, expiresAt = 20\<rparr>"
    by (simp_all add: example_store_def)
  let ?r = "\<lparr>username = ''admin'', issuedAt = 0, expiresAt = 10\<rparr>"
  let ?s = "snd (verifyToken 15 ''a'' example_store)"
  have expired: "map_of example_store ''a'' = Some ?r \<and> 15 > expiresAt ?r"
    using a by simp
  have live: "map_of example_store ''c'' =
      Some \<lparr>username = ''admin'', issuedAt = 5, expiresAt = 20\<rparr> \<and>
      \<not> 15 > expiresAt \<lparr>username = ''admin'', issuedAt = 5, expiresAt = 20\<rparr>"
    using c by simp
  have 1: "verifyToken 15 ''zz'' example_store = (None, example_store)"
    using verifyToken_contract [OF wf, of "''zz''" 15] absent by blast
  have 2: "fst (verifyToken 15 ''a'' example_store) = None \<and>
      ?s = filter (\<lambda>e. fst e \<noteq> ''a'') example_store \<and>
      map_of ?s ''a'' = None \<and>
      (\<forall>now'. verifyToken now' ''a'' ?s = (None, ?s)) \<and>
      (\<forall>now'. now' > expiresAt ?r \<longrightarrow>
         fst (cleanupExpired now' ?s) + 1 = fst (cleanupExpired now' example_store))"
    using verifyToken_contract [OF wf, of "''a''" 15] expired by blast
  then have 3: "verifyToken 16 ''a'' ?s = (None, ?s)"
    by blast
  have "(16::int) > expiresAt ?r" by simp
  with 2 have 4: "fst (cleanupExpired 16 ?s) + 1 = fst (cleanupExpired 16 example_store)"
    by blast
  have "verifyToken 15 ''c'' example_store = (Some (username
      \<lparr>username = ''admin'', issuedAt = 5, expiresAt = 20\<rparr>), example_store)"
    using verifyToken_contract [OF wf, of "''c''" 15] live by blast
  then have 5: "verifyToken 15 ''c'' example_store = (Some ''admin'', example_store)"
    by simp
  show ?thesis
    using wf absent a c 1 2 3 4 5 by blast
qed

subsection \<open>C2\<close>





subsection \<open>C3\<close>

text \<open>
  C3 (as amended): Login with the known credentials, then refresh with the refresh token
  the login returned, for a library that decodes the tokens it signs. The refresh succeeds
  exactly when, at its readings of the clock, the stored record has not expired (the clock
  at most seven days past the reading of \<open>saveToken\<close>) and the token's own \<^verbatim>\<open>exp\<close>
  claim has not passed (the clock at most at the second seven days after the second in
  which the refresh token was signed; that second is in whole seconds, so it can lie before
  the expiry of the stored record). It
  then returns the refresh token it was given, and its access token is the signature of
  the subject and of the second in which the refresh signs: it is the access token of the
  login exactly when that second is the second in which the login signed its access token.
  So the round trip as the specification words it holds exactly when the record and the
  token are unexpired and the two access tokens are signed in different seconds.
\<close>

theorem login_refresh_roundtrip:
  assumes lib: "\<And>c. jwt_decode app (jwt_encode app c) = Some c"
  shows "login_refresh app now0 now1 tokens =
      (if at_verifyToken now1 \<le> at_saveToken now0 + 7 * 24 * 60 * 60 * 1000 \<and>
          at_jwt_verify now1 \<le> (at_sign_refresh now0 div 1000 + 7 * 24 * 60 * 60) * 1000
       then Some (\<lparr>accessToken = jwt_sign app (at_sign_access now0) ''admin'' (15 * 60),
                    refreshToken = jwt_sign app (at_sign_refresh now0) ''admin'' (7 * 24 * 60 * 60),
                    tokenType = ''Bearer''\<rparr>,
                  \<lparr>accessToken = jwt_sign app (at_sign now1) ''admin'' (15 * 60),
                    refreshToken = jwt_sign app (at_sign_refresh now0) ''admin'' (7 * 24 * 60 * 60),
                    tokenType = ''Bearer''\<rparr>)
       else None) \<and>
    (jwt_sign app (at_sign now1) ''admin'' (15 * 60) =
       jwt_sign app (at_sign_access now0) ''admin'' (15 * 60)) =
      (at_sign now1 div 1000 = at_sign_access now0 div 1000) \<and>
    roundtrip_as_specified app now0 now1 tokens =
      (at_verifyToken now1 \<le> at_saveToken now0 + 7 * 24 * 60 * 60 * 1000 \<and>
       at_jwt_verify now1 \<le> (at_sign_refresh now0 div 1000 + 7 * 24 * 60 * 60) * 1000 \<and>
       at_sign now1 div 1000 \<noteq> at_sign_access now0 div 1000)"
proof -
  let ?rt = "jwt_sign app (at_sign_refresh now0) ''admin'' 604800"
  let ?s1 = "saveToken (at_saveToken now0) ?rt ''admin'' 604800 tokens"
  let ?a0 = "jwt_sign app (at_sign_access now0) ''admin'' 900"
  let ?a1 = "jwt_sign app (at_sign now1) ''admin'' 900"
  let ?live = "at_verifyToken now1 \<le> at_saveToken now0 + 604800000"
  let ?valid = "at_jwt_verify now1 \<le> (at_sign_refresh now0 div 1000 + 604800) * 1000"
  have login: "AuthService_login app now0 valid_login tokens =
      (Inr \<lparr>accessToken = ?a0, refreshToken = ?rt, tokenType = ''Bearer''\<rparr>, ?s1)"
    by (simp add: AuthService_login_def valid_login_def Let_def)
  have stored: "verifyToken (at_verifyToken now1) ?rt ?s1 =
      (if ?live then (Some ''admin'', ?s1) else (None, AList.delete ?rt ?s1))"
    by (simp add: verifyToken_def saveToken_def update_conv')
  have verified: "jwt_verify app (at_jwt_verify now1) ?rt =
      (if ?valid
       then Some \<lparr>sub = ''admin'', iat = at_sign_refresh now0 div 1000,
                   exp = at_sign_refresh now0 div 1000 + 604800\<rparr>
       else None)"
    by (simp add: jwt_verify_def jwt_sign_def lib)
  have refresh: "fst (AuthService_refresh app now1 ?rt ?s1) =
      (if ?live \<and> ?valid
       then Inr \<lparr>accessToken = ?a1, refreshToken = ?rt, tokenType = ''Bearer''\<rparr>
       else if ?live then Inl JwtVerifyError
       else Inl (Error ''Refresh token is invalid or revoked''))"
    by (simp add: AuthService_refresh_def stored verified)
  have both: "login_refresh app now0 now1 tokens =
      (if ?live \<and> ?valid
       then Some (\<lparr>accessToken = ?a0, refreshToken = ?rt, tokenType = ''Bearer''\<rparr>,
                  \<lparr>accessToken = ?a1, refreshToken = ?rt, tokenType = ''Bearer''\<rparr>)
       else None)"
    using refresh
    by (cases "AuthService_refresh app now1 ?rt ?s1")
      (auto simp: login_refresh_def login split: sum.splits if_splits)
  have same: "(?a1 = ?a0) = (at_sign now1 div 1000 = at_sign_access now0 div 1000)"
    by (auto simp: jwt_sign_def jwt_encode_inj [OF lib])
  have spec: "roundtrip_as_specified app now0 now1 tokens =
      (?live \<and> ?valid \<and> at_sign now1 div 1000 \<noteq> at_sign_access now0 div 1000)"
    by (auto simp: roundtrip_as_specified_def both same)
  show ?thesis
    using both same spec by simp
qed


text \<open>
  C3 at concrete inputs, with the reference library: a refresh one and a half seconds after
  the login; a refresh in the second in which the login ended, after a login whose first
  signature fell in the second before; and a refresh at the very second of the \<^verbatim>\<open>exp\<close>
  claim.
\<close>

theorem login_refresh_roundtrip_witness:
  "login_refresh demo_app (login_at 1000) (refresh_at 2500) new_TokenStore =
     Some (\<lparr>accessToken = ''1.901.admin'', refreshToken = ''1.604801.admin'', tokenType = ''Bearer''\<rparr>,
           \<lparr>accessToken = ''2.902.admin'', refreshToken = ''1.604801.admin'', tokenType = ''Bearer''\<rparr>) \<and>
   roundtrip_as_specified demo_app (login_at 1000) (refresh_at 2500) new_TokenStore \<and>
   login_refresh demo_app ticking_login (refresh_at 1500) new_TokenStore =
     Some (\<lparr>accessToken = ''0.900.admin'', refreshToken = ''1.604801.admin'', tokenType = ''Bearer''\<rparr>,
           \<lparr>accessToken = ''1.901.admin'', refreshToken = ''1.604801.admin'', tokenType = ''Bearer''\<rparr>) \<and>
   roundtrip_as_specified demo_app ticking_login (refresh_at 1500) new_TokenStore \<and>
   roundtrip_as_specified demo_app (login_at 1500) (refresh_at 604801000) example_store"
proof -
  have e: "jwt_sign demo_app 999 ''admin'' 900 = ''0.900.admin''"
    "jwt_sign demo_app 1000 ''admin'' 900 = ''1.901.admin''"
    "jwt_sign demo_app 1500 ''admin'' 900 = ''1.901.admin''"
    "jwt_sign demo_app 2500 ''admin'' 900 = ''2.902.admin''"
    "jwt_sign demo_app 1000 ''admin'' 604800 = ''1.604801.admin''"
    by (simp_all add: demo_eval)
  show ?thesis
    using login_refresh_roundtrip [OF demo_app_decodes, of "login_at 1000" "refresh_at 2500" new_TokenStore]
      login_refresh_roundtrip [OF demo_app_decodes, of ticking_login "refresh_at 1500" new_TokenStore]
      login_refresh_roundtrip [OF demo_app_decodes, of "login_at 1500" "refresh_at 604801000" example_store]
    by (simp add: e login_at_def refresh_at_def ticking_login_def)
qed

text \<open>
  C3 as the specification states it, for every execution, fails: with the reference
  library, a login at 1000 ms and a refresh at 1500 ms return the same access token, and
  after a login at 1500 ms a refresh at 604801200 ms, inside the seven days of the stored
  record, is rejected.
\<close>

theorem roundtrip_counterexample:
  "\<not> roundtrip_as_specified demo_app (login_at 1000) (refresh_at 1500) new_TokenStore \<and>
   \<not> roundtrip_as_specified demo_app (login_at 1500) (refresh_at 604801200) new_TokenStore"
  by (simp add: roundtrip_as_specified_def login_refresh_same_second
        login_refresh_jwt_expired_None)

subsection \<open>C4\<close>

text \<open>
  C4: For every two credential pairs that both differ from \<open>admin\<close> /
  \<open>Admin@123\<close>, whatever the clock, the store and the library, \<open>login\<close> throws the
  same error \<open>Invalid credentials\<close> and does not touch the store, and the controller
  sends the same reply, status 401 with the message \<open>Invalid credentials\<close>.
\<close>

theorem login_invalid_uniform:
  assumes "(req_username p1, req_password p1) \<noteq> (''admin'', ''Admin@123'')"
      and "(req_username p2, req_password p2) \<noteq> (''admin'', ''Admin@123'')"
  shows "AuthService_login app1 now1 p1 tokens1 = (Inl (Error ''Invalid credentials''), tokens1) \<and>
    fst (AuthService_login app1 now1 p1 tokens1) = fst (AuthService_login app2 now2 p2 tokens2) \<and>
    AuthController_login app1 now1 p1 tokens1 = ((401, Message ''Invalid credentials''), tokens1) \<and>
    fst (AuthController_login app1 now1 p1 tokens1) = fst (AuthController_login app2 now2 p2 tokens2)"
proof -
  have "AuthService_login app now p tokens = (Inl (Error ''Invalid credentials''), tokens)"
    if "(req_username p, req_password p) \<noteq> (''admin'', ''Admin@123'')" for app now p tokens
    using that by (auto simp: AuthService_login_def)
  with assms show ?thesis
    by (simp add: AuthController_login_def)
qed

text \<open>C4 at concrete inputs.\<close>

theorem login_invalid_uniform_witness:
  "(''admin'', ''wrong'') \<noteq> (''admin'', ''Admin@123'') \<and>
   (''root'', ''Admin@123'') \<noteq> (''admin'', ''Admin@123'') \<and>
   fst (AuthService_login demo_app (login_at 1000) \<lparr>req_username = ''admin'', req_password = ''wrong''\<rparr>
          new_TokenStore) =
   fst (AuthService_login demo_app (login_at 2000) \<lparr>req_username = ''root'', req_password = ''Admin@123''\<rparr>
          example_store) \<and>
   AuthController_login demo_app (login_at 1000) \<lparr>req_username = ''admin'', req_password = ''wrong''\<rparr>
       new_TokenStore = ((401, Message ''Invalid credentials''), new_TokenStore) \<and>
   AuthController_login demo_app (login_at 2000) \<lparr>req_username = ''root'', req_password = ''Admin@123''\<rparr>
       example_store = ((401, Message ''Invalid credentials''), example_store)"
  using login_invalid_uniform [of "\<lparr>req_username = ''admin'', req_password = ''wrong''\<rparr>"
      "\<lparr>req_username = ''root'', req_password = ''Admin@123''\<rparr>"
      demo_app "login_at 1000" new_TokenStore demo_app "login_at 2000" example_store]
    login_invalid_uniform [of "\<lparr>req_username = ''root'', req_password = ''Admin@123''\<rparr>"
      "\<lparr>req_username = ''admin'', req_password = ''wrong''\<rparr>"
      demo_app "login_at 2000" example_store demo_app "login_at 1000" new_TokenStore]
  by simp

subsection \<open>C5\<close>

text \<open>
  C5: For every store, token, user and time-to-live that is not negative,
  \<open>verifyToken\<close> at the clock reading of the \<open>saveToken\<close> before it returns the user
  saved, and leaves the store as the save left it.
\<close>

theorem verify_after_save:
  "0 \<le> ttl \<Longrightarrow>
   verifyToken now token (saveToken now token user ttl tokens) =
     (Some user, saveToken now token user ttl tokens)"
  by (simp add: verifyToken_def saveToken_def update_conv')

text \<open>C5 at concrete inputs.\<close>

theorem verify_after_save_witness:
  "(0::int) \<le> 60 \<and>
   verifyToken 1000 ''r'' (saveToken 1000 ''r'' ''admin'' 60 example_store) =
     (Some ''admin'', saveToken 1000 ''r'' ''admin'' 60 example_store)"
  using verify_after_save [of 60 1000 "''r''" "''admin''" example_store] by simp

subsection \<open>C6\<close>

text \<open>
  C6: \<open>revokeToken\<close> is a total function of the token and the store with no error
  outcome. Revoking twice gives the store that revoking once gives; after it the token has
  no record; and when the token had no record the store is unchanged.
\<close>

theorem revokeToken_idempotent:
  "revokeToken token (revokeToken token tokens) = revokeToken token tokens \<and>
   map_of (revokeToken token tokens) token = None \<and>
   (map_of tokens token = None \<longrightarrow> revokeToken token tokens = tokens)"
  by (simp add: revokeToken_def delete_idem map_of_delete_same AList.delete_id map_of_eq_None_iff)


text \<open>C6 at concrete inputs.\<close>

theorem revokeToken_idempotent_witness:
  "map_of example_store ''zz'' = None \<and>
   revokeToken ''zz'' example_store = example_store \<and>
   revokeToken ''a'' (revokeToken ''a'' example_store) = revokeToken ''a'' example_store \<and>
   map_of (revokeToken ''a'' example_store) ''a'' = None"
proof -
  have absent: "map_of example_store ''zz'' = None"
    by (simp add: example_store_def)
  show ?thesis
    using revokeToken_idempotent [of "''zz''" example_store]
      revokeToken_idempotent [of "''a''" example_store]
    by (simp add: absent)
qed

subsection \<open>C7\<close>

text \<open>
  C7: For every well-formed store and user, \<open>revokeAllUserTokens\<close> keeps exactly the
  records of the other users, in their order: no record of the user remains, every record of
  another user is still there under its token with the same contents, and no record
  appears.
\<close>

theorem revokeAllUserTokens_frame:
  assumes "wf_store tokens"
  shows "revokeAllUserTokens user tokens = filter (\<lambda>e. username (snd e) \<noteq> user) tokens \<and>
    (\<forall>t r. map_of (revokeAllUserTokens user tokens) t = Some r \<longrightarrow> username r \<noteq> user) \<and>
    (\<forall>t r. map_of tokens t = Some r \<and> username r \<noteq> user \<longrightarrow>
       map_of (revokeAllUserTokens user tokens) t = Some r) \<and>
    (\<forall>t r. map_of (revokeAllUserTokens user tokens) t = Some r \<longrightarrow> map_of tokens t = Some r)"
proof -
  have d: "distinct (map fst tokens)"
    using assms by (simp add: wf_store_def)
  have m: "map_of (revokeAllUserTokens user tokens) t =
        (case map_of tokens t of None \<Rightarrow> None
         | Some r \<Rightarrow> if username r \<noteq> user then Some r else None)" for t
    by (cases "map_of tokens t")
      (simp_all add: revokeAllUserTokens_filter [OF assms] map_of_filter_absent
         map_of_filter_present [OF d])
  have "revokeAllUserTokens user tokens = filter (\<lambda>e. username (snd e) \<noteq> user) tokens"
    using assms by (rule revokeAllUserTokens_filter)
  moreover have "\<forall>t r. map_of (revokeAllUserTokens user tokens) t = Some r \<longrightarrow> username r \<noteq> user"
    by (simp add: m split: option.splits)
  moreover have "\<forall>t r. map_of tokens t = Some r \<and> username r \<noteq> user \<longrightarrow>
       map_of (revokeAllUserTokens user tokens) t = Some r"
    by (simp add: m)
  moreover have "\<forall>t r. map_of (revokeAllUserTokens user tokens) t = Some r \<longrightarrow>
       map_of tokens t = Some r"
    by (simp add: m split: option.splits if_splits)
  ultimately show ?thesis by blast
qed

text \<open>C7 at concrete inputs.\<close>

theorem revokeAllUserTokens_frame_witness:
  "wf_store example_store \<and>
   revokeAllUserTokens ''admin'' example_store =
     [(''b'', \<lparr>username = ''bob'', issuedAt = 0, expiresAt = 100\<rparr>)] \<and>
   map_of example_store ''b'' = Some \<lparr>username = ''bob'', issuedAt = 0, expiresAt = 100\<rparr> \<and>
   map_of (revokeAllUserTokens ''admin'' example_store) ''b'' =
     Some \<lparr>username = ''bob'', issuedAt = 0, expiresAt = 100\<rparr>"
proof -
  have wf: "wf_store example_store"
    by (simp add: store_eval)
  have b: "map_of example_store ''b'' = Some \<lparr>username = ''bob'', issuedAt = 0, expiresAt = 100\<rparr>"
    by (simp add: example_store_def)
  have f: "filter (\<lambda>e. username (snd e) \<noteq> ''admin'') example_store =
      [(''b'', \<lparr>username = ''bob'', issuedAt = 0, expiresAt = 100\<rparr>)]"
    by (simp add: example_store_def)
  show ?thesis
    using revokeAllUserTokens_frame [OF wf, of "''admin''"] b
    by (simp add: wf f)
qed

subsection \<open>C8\<close>

text \<open>
  C8: For every well-formed store and clock reading, \<open>cleanupExpired\<close> removes exactly
  the records with \<open>expiresAt < now\<close>, leaves every other record under its token with the
  same contents, and returns the number of records it removed.
\<close>

theorem cleanupExpired_contract:
  assumes "wf_store tokens"
  shows "snd (cleanupExpired now tokens) = filter (\<lambda>e. \<not> expiresAt (snd e) < now) tokens \<and>
    fst (cleanupExpired now tokens) = length (filter (\<lambda>e. expiresAt (snd e) < now) tokens) \<and>
    fst (cleanupExpired now tokens) + length (snd (cleanupExpired now tokens)) = length tokens \<and>
    (\<forall>t r. map_of tokens t = Some r \<longrightarrow>
       map_of (snd (cleanupExpired now tokens)) t = (if expiresAt r < now then None else Some r)) \<and>
    (\<forall>t. map_of tokens t = None \<longrightarrow> map_of (snd (cleanupExpired now tokens)) t = None)"
proof -
  have d: "distinct (map fst tokens)"
    using assms by (simp add: wf_store_def)
  show ?thesis
    by (simp add: cleanupExpired_filter [OF assms] map_of_filter_absent
          map_of_filter_present [OF d] sum_length_filter_compl)
qed

text \<open>C8 at concrete inputs.\<close>

theorem cleanupExpired_contract_witness:
  "wf_store example_store \<and>
   cleanupExpired 21 example_store =
     (2, [(''b'', \<lparr>username = ''bob'', issuedAt = 0, expiresAt = 100\<rparr>)]) \<and>
   map_of example_store ''c'' = Some \<lparr>username = ''admin'', issuedAt = 5, expiresAt = 20\<rparr> \<and>
   map_of (snd (cleanupExpired 21 example_store)) ''c'' = None"
proof -
  have wf: "wf_store example_store"
    by (simp add: store_eval)
  have c: "map_of example_store ''c'' = Some \<lparr>username = ''admin'', issuedAt = 5, expiresAt = 20\<rparr>"
    by (simp add: example_store_def)
  have f: "filter (\<lambda>e. \<not> expiresAt (snd e) < 21) example_store =
      [(''b'', \<lparr>username = ''bob'', issuedAt = 0, expiresAt = 100\<rparr>)]"
    "length (filter (\<lambda>e. expiresAt (snd e) < 21) example_store) = 2"
    by (simp_all add: example_store_def)
  show ?thesis
    using cleanupExpired_contract [OF wf, of 21] c
    by (simp add: wf f prod_eq_iff)
qed

subsection \<open>C9\<close>

text \<open>
  C9: For every refresh token and store, \<open>logout\<close> of the service returns normally:
  its outcome is never an error, the store after it is the store with the token revoked
  (unchanged when the token had no record), and a second logout of the same token gives the
  same outcome and store. The controller answers every non-empty token with status 200.
\<close>

theorem logout_always_succeeds:
  "fst (AuthService_logout refresh_token tokens) = Inr () \<and>
   snd (AuthService_logout refresh_token tokens) = revokeToken refresh_token tokens \<and>
   (map_of tokens refresh_token = None \<longrightarrow> snd (AuthService_logout refresh_token tokens) = tokens) \<and>
   AuthService_logout refresh_token (snd (AuthService_logout refresh_token tokens)) =
     AuthService_logout refresh_token tokens \<and>
   (refresh_token \<noteq> [] \<longrightarrow>
      fst (AuthController_logout refresh_token tokens) = (200, Message ''Logged out successfully''))"
  by (simp add: AuthService_logout_def AuthController_logout_def revokeToken_def delete_idem
        map_of_eq_None_iff)


text \<open>C9 at concrete inputs.\<close>

theorem logout_always_succeeds_witness:
  "map_of example_store ''zz'' = None \<and>
   fst (AuthService_logout ''zz'' example_store) = Inr () \<and>
   snd (AuthService_logout ''zz'' example_store) = example_store \<and>
   (''zz'' :: string) \<noteq> [] \<and>
   fst (AuthController_logout ''zz'' example_store) = (200, Message ''Logged out successfully'')"
proof -
  have absent: "map_of example_store ''zz'' = None"
    by (simp add: example_store_def)
  have nonempty: "(''zz'' :: string) \<noteq> []"
    by simp
  show ?thesis
    using logout_always_succeeds [of "''zz''" example_store] absent nonempty
    by blast
qed

subsection \<open>C10\<close>

text \<open>
  C10: Expiry is strict. For a record of a well-formed store whose \<open>expiresAt\<close> equals
  the clock reading, \<open>verifyToken\<close> returns its user and leaves the store unchanged, and
  \<open>cleanupExpired\<close> keeps the record and returns the count it returns on the store
  without that record. At any clock reading, \<open>verifyToken\<close> is not-found for a present
  record, and \<open>cleanupExpired\<close> removes it, exactly when \<open>now > expiresAt\<close>.
\<close>

theorem expiry_is_strict:
  assumes "wf_store tokens" and "map_of tokens token = Some stored"
  shows "(expiresAt stored = now \<longrightarrow>
       verifyToken now token tokens = (Some (username stored), tokens) \<and>
       map_of (snd (cleanupExpired now tokens)) token = Some stored \<and>
       fst (cleanupExpired now tokens) = fst (cleanupExpired now (revokeToken token tokens))) \<and>
    (fst (verifyToken now token tokens) = None \<longleftrightarrow> now > expiresAt stored) \<and>
    (map_of (snd (cleanupExpired now tokens)) token = None \<longleftrightarrow> now > expiresAt stored)"
proof -
  have d: "distinct (map fst tokens)"
    using assms(1) by (simp add: wf_store_def)
  have wf': "wf_store (AList.delete token tokens)"
    using assms(1) by (rule wf_delete)
  have count: "length (filter (\<lambda>e. now > expiresAt (snd e)) (AList.delete token tokens)) =
        length (filter (\<lambda>e. now > expiresAt (snd e)) tokens)" if "expiresAt stored = now"
    using d assms(2) that by (intro count_delete_other [where v = stored]) simp_all
  show ?thesis
    using assms(2) count
    by (simp add: verifyToken_def revokeToken_def cleanupExpired_filter [OF assms(1)]
          cleanupExpired_filter [OF wf'] map_of_filter_present [OF d assms(2)])
qed


text \<open>C10 at concrete inputs.\<close>

theorem expiry_is_strict_witness:
  "wf_store example_store \<and>
   map_of example_store ''c'' = Some \<lparr>username = ''admin'', issuedAt = 5, expiresAt = 20\<rparr> \<and>
   verifyToken 20 ''c'' example_store = (Some ''admin'', example_store) \<and>
   map_of (snd (cleanupExpired 20 example_store)) ''c'' =
     Some \<lparr>username = ''admin'', issuedAt = 5, expiresAt = 20\<rparr> \<and>
   fst (cleanupExpired 20 example_store) = fst (cleanupExpired 20 (revokeToken ''c'' example_store)) \<and>
   fst (verifyToken 21 ''c'' example_store) = None \<and>
   map_of (snd (cleanupExpired 21 example_store)) ''c'' = None"
proof -
  have wf: "wf_store example_store"
    by (simp add: store_eval)
  have c: "map_of example_store ''c'' = Some \<lparr>username = ''admin'', issuedAt = 5, expiresAt = 20\<rparr>"
    by (simp add: example_store_def)
  show ?thesis
    using expiry_is_strict [OF wf c, of 20] expiry_is_strict [OF wf c, of 21]
    by (simp add: wf c)
qed

end
